theory Spec2Isabelle
  imports Main
begin

section \<open>The colour engine of tasknc (color.c)\<close>

text \<open>
  A shallow embedding of \<^verbatim>\<open>src/color.c\<close>: the pool of curses colour pairs
  (\<^verbatim>\<open>add_color_pair\<close>, \<^verbatim>\<open>find_add_pair\<close>), the rule list
  (\<^verbatim>\<open>add_color_rule\<close>), the predicate evaluator (\<^verbatim>\<open>eval_rules\<close>), the
  resolver (\<^verbatim>\<open>get_colors\<close>), start-up (\<^verbatim>\<open>init_colors\<close>) and
  \<^verbatim>\<open>parse_color\<close>. C strings are lists of their characters before the
  terminating NUL, a \<^verbatim>\<open>char *\<close> that may be \<^verbatim>\<open>NULL\<close> is a
  \<open>string option\<close>, and the linked list of rules is a list in link order.
\<close>

subsection \<open>Data\<close>

text \<open>The enumeration \<^verbatim>\<open>color_object\<close> (declared in color.h), with the four
  constants color.c names.\<close>

datatype color_object = OBJECT_HEADER | OBJECT_TASK | OBJECT_ERROR | OBJECT_NONE

text \<open>\<^verbatim>\<open>struct _color_rule\<close>: the fields \<^verbatim>\<open>pair\<close>, \<^verbatim>\<open>rule\<close> and
  \<^verbatim>\<open>object\<close>; the \<^verbatim>\<open>next\<close> link is the list structure.\<close>

record color_rule =
  rule_pair :: int
  rule_text :: "string option"
  rule_object :: color_object

text \<open>The fields of a task that color.c reads. \<^verbatim>\<open>priority\<close> is a single
  \<^verbatim>\<open>char\<close>, NUL when the task has none.\<close>

record task =
  description :: "string option"
  project :: "string option"
  tags :: "string option"
  priority :: char

text \<open>What color.c asks of curses and of the terminal: the global
  \<^verbatim>\<open>COLOR_PAIRS\<close>, the results of \<^verbatim>\<open>start_color\<close>,
  \<^verbatim>\<open>use_default_colors\<close> and \<^verbatim>\<open>has_colors\<close>, and whether
  \<^verbatim>\<open>init_pair\<close> accepts a pair number with two colours (it answers
  \<^verbatim>\<open>ERR\<close> otherwise).\<close>

record terminal =
  COLOR_PAIRS :: int
  start_color_ok :: bool
  use_default_colors_ok :: bool
  has_colors :: bool
  init_pair_ok :: "int \<Rightarrow> int \<Rightarrow> int \<Rightarrow> bool"

text \<open>The process-wide state: the four globals of color.c, the pair table curses keeps
  (\<open>None\<close> where \<^verbatim>\<open>pair_content\<close> answers \<^verbatim>\<open>ERR\<close>), and the memory
  next to the usage table, which a read or write outside the table reaches.
  \<^verbatim>\<open>pairs_used\<close> is \<open>None\<close> while the pointer is \<^verbatim>\<open>NULL\<close>.\<close>

record colors =
  use_colors :: bool
  colors_initialized :: bool
  pairs_used :: "bool list option"
  color_rules :: "color_rule list"
  pair_table :: "int \<Rightarrow> (int \<times> int) option"
  past_table :: "int \<Rightarrow> bool"

text \<open>How a call can leave the defined behaviour of the C program: a dereference of the
  \<^verbatim>\<open>NULL\<close> usage table, a \<^verbatim>\<open>short\<close> pair counter stepped past 32767, and a
  \<^verbatim>\<open>%d\<close> conversion whose value no \<^verbatim>\<open>int\<close> holds.\<close>

datatype fault = NullPointer | ShortOverflow | IntOverflow

datatype scan_result = Found int | Free int

text \<open>The regular-expression primitive \<^verbatim>\<open>match_string(haystack, needle)\<close> is a
  parameter of the evaluator; the haystack may be \<^verbatim>\<open>NULL\<close>.\<close>

type_synonym matcher = "string option \<Rightarrow> string \<Rightarrow> bool"

subsection \<open>Library primitives\<close>

text \<open>Modelled from the spec: \<^verbatim>\<open>str_starts_with\<close> (common.c) is not among the
  sources; the clause \<^verbatim>\<open>~S\<close> is recognised by its two leading characters.\<close>

definition str_starts_with :: "string \<Rightarrow> string \<Rightarrow> bool" where
  "str_starts_with haystack needle = (take (length needle) haystack = needle)"

text \<open>\<^verbatim>\<open>isspace\<close> in the C locale, which the white-space directive of
  \<^verbatim>\<open>sscanf\<close> uses.\<close>

definition isspace :: "char \<Rightarrow> bool" where
  "isspace c = (c = CHR '' '' \<or> c = CHR 0x09 \<or> c = CHR 0x0A \<or> c = CHR 0x0B
                \<or> c = CHR 0x0C \<or> c = CHR 0x0D)"

definition isdigit :: "char \<Rightarrow> bool" where
  "isdigit c = (c \<in> set ''0123456789'')"

definition digit_value :: "char \<Rightarrow> int" where
  "digit_value c = int (of_char c) - 48"

text \<open>The number a string of decimal digits denotes.\<close>

definition decimal :: "string \<Rightarrow> int" where
  "decimal ds = foldl (\<lambda>a c. 10 * a + digit_value c) 0 ds"

text \<open>\<^verbatim>\<open>sscanf(rule, "~%c '%m[^']'", &pattern, &regex)\<close>: \<open>Some (pattern, regex)\<close>
  when the call returns 2. The tilde is matched, \<^verbatim>\<open>%c\<close> takes the next character
  whatever it is, the blank of the format skips any white space, the quote is matched and
  \<^verbatim>\<open>%m[^']\<close> takes the longest non-empty run of characters other than a quote.
  The closing quote of the format comes after the last conversion, so whether it is
  matched does not change the value returned.\<close>

fun sscanf_clause :: "string \<Rightarrow> (char \<times> string) option" where
  "sscanf_clause (t # c # rest) =
     (if t \<noteq> CHR ''~'' then None
      else case dropWhile isspace rest of
             [] \<Rightarrow> None
           | q # body \<Rightarrow>
               if q \<noteq> CHR 0x27 then None
               else let regex = takeWhile (\<lambda>x. x \<noteq> CHR 0x27) body
                    in if regex = [] then None else Some (c, regex))"
| "sscanf_clause _ = None"

text \<open>The directive \<^verbatim>\<open>%d\<close> (\<open>width = None\<close>) or \<^verbatim>\<open>%3d\<close>
  (\<open>width = Some 3\<close>) at the head of the input: white space is skipped, a sign is
  taken if there is one and counts towards the width, then the digits that follow, at most
  as many as the width leaves. \<open>None\<close> when no digit is found (the conversion
  fails); otherwise the value read, as a mathematical integer.\<close>

definition scan_d :: "nat option \<Rightarrow> string \<Rightarrow> int option" where
  "scan_d width input =
     (let s = dropWhile isspace input;
          signed = (s \<noteq> [] \<and> (hd s = CHR ''-'' \<or> hd s = CHR ''+''));
          negative = (s \<noteq> [] \<and> hd s = CHR ''-'');
          body = (if signed then tl s else s);
          room = (case width of None \<Rightarrow> length body
                  | Some w \<Rightarrow> if signed then w - 1 else w);
          ds = takeWhile isdigit (take room body)
      in if ds = [] then None
         else Some (if negative then - decimal ds else decimal ds))"

text \<open>Storing the value through the \<^verbatim>\<open>int\<close>-sized object \<^verbatim>\<open>i\<close> and returning
  it as \<^verbatim>\<open>int\<close>: the value itself when an \<^verbatim>\<open>int\<close> of 32 bits holds it;
  otherwise C leaves the conversion undefined.\<close>

definition store_int :: "int \<Rightarrow> fault + int" where
  "store_int v = (if - 2147483648 \<le> v \<and> v \<le> 2147483647 then Inr v else Inl IntOverflow)"

text \<open>The curses macro \<^verbatim>\<open>COLOR_PAIR\<close>: the pair number moved into the colour bits
  of an attribute, eight bits up (\<^verbatim>\<open>NCURSES_BITS(n, 0)\<close> in curses.h). The
  properties below use of it only that pair 0 gives attribute 0.\<close>

definition COLOR_PAIR :: "int \<Rightarrow> int" where
  "COLOR_PAIR n = n * 256"

text \<open>The eight colour constants of curses.h.\<close>

definition COLOR_BLACK :: int where "COLOR_BLACK = 0"
definition COLOR_RED :: int where "COLOR_RED = 1"
definition COLOR_GREEN :: int where "COLOR_GREEN = 2"
definition COLOR_YELLOW :: int where "COLOR_YELLOW = 3"
definition COLOR_BLUE :: int where "COLOR_BLUE = 4"
definition COLOR_MAGENTA :: int where "COLOR_MAGENTA = 5"
definition COLOR_CYAN :: int where "COLOR_CYAN = 6"
definition COLOR_WHITE :: int where "COLOR_WHITE = 7"

text \<open>\<^verbatim>\<open>init_pair\<close> and \<^verbatim>\<open>pair_content\<close>. \<^verbatim>\<open>init_pair\<close> is called only
  after \<^verbatim>\<open>use_default_colors\<close> has succeeded; curses then takes every negative
  colour for the terminal's default colour and keeps it as \<open>-1\<close>, so
  \<^verbatim>\<open>init_pair(3, -2, 0)\<close> is accepted and \<^verbatim>\<open>pair_content(3)\<close> gives
  \<open>(-1, 0)\<close>. A pair that curses accepts is stored with its two colours as curses
  keeps them, and \<^verbatim>\<open>pair_content\<close> reads the table back; \<open>None\<close> is
  \<^verbatim>\<open>ERR\<close>.\<close>

definition stored_color :: "int \<Rightarrow> int" where
  "stored_color c = (if c < 0 then - 1 else c)"

definition init_pair :: "terminal \<Rightarrow> colors \<Rightarrow> int \<Rightarrow> int \<Rightarrow> int \<Rightarrow> colors option" where
  "init_pair tty s pair fg bg =
     (if init_pair_ok tty pair fg bg
      then Some (s\<lparr>pair_table := (pair_table s)(pair \<mapsto> (stored_color fg, stored_color bg))\<rparr>)
      else None)"

definition pair_content :: "colors \<Rightarrow> int \<Rightarrow> (int \<times> int) option" where
  "pair_content s pair = pair_table s pair"

text \<open>Reading \<^verbatim>\<open>pairs_used[pair]\<close> and storing \<^verbatim>\<open>true\<close> there. Inside the
  table it is the table's entry; outside, it is the memory next to the table.\<close>

definition read_used :: "colors \<Rightarrow> bool list \<Rightarrow> int \<Rightarrow> bool" where
  "read_used s used pair =
     (if 0 \<le> pair \<and> pair < int (length used) then used ! nat pair else past_table s pair)"

definition write_used :: "colors \<Rightarrow> bool list \<Rightarrow> int \<Rightarrow> colors" where
  "write_used s used pair =
     (if 0 \<le> pair \<and> pair < int (length used)
      then s\<lparr>pairs_used := Some (used[nat pair := True])\<rparr>
      else s\<lparr>past_table := (past_table s)(pair := True)\<rparr>)"

subsection \<open>The pair pool\<close>

text \<open>The search of \<^verbatim>\<open>add_color_pair\<close> for a free slot,
  \<^verbatim>\<open>while (pairs_used[pair] && pair<COLOR_PAIRS) pair++;\<close>. Each test reads
  \<^verbatim>\<open>pairs_used[pair]\<close> first; the last argument collects the indices read, in
  order. The result is the value of \<^verbatim>\<open>pair\<close> when the loop ends.\<close>

function free_pair_scan ::
  "terminal \<Rightarrow> colors \<Rightarrow> bool list \<Rightarrow> int \<Rightarrow> int list \<Rightarrow> fault + (int \<times> int list)" where
  "free_pair_scan tty s used pair reads =
     (if read_used s used pair \<and> pair < COLOR_PAIRS tty then
        (if pair = 32767 then Inl ShortOverflow
         else free_pair_scan tty s used (pair + 1) (reads @ [pair]))
      else Inr (pair, reads @ [pair]))"
  by pat_completeness auto
termination
  by (relation "measure (\<lambda>(tty, s, used, pair, reads). nat (COLOR_PAIRS tty - pair))") auto

text \<open>The end of \<^verbatim>\<open>add_color_pair\<close>: initialise the pair, mark it used, return it;
  \<open>-1\<close> when curses refuses.\<close>

definition mark_pair ::
  "terminal \<Rightarrow> colors \<Rightarrow> bool list \<Rightarrow> int \<Rightarrow> int \<Rightarrow> int \<Rightarrow> colors \<times> int" where
  "mark_pair tty s used pair fg bg =
     (case init_pair tty s pair fg bg of
        None \<Rightarrow> (s, - 1)
      | Some s' \<Rightarrow> (write_used s' used pair, pair))"

definition add_color_pair ::
  "terminal \<Rightarrow> colors \<Rightarrow> int \<Rightarrow> int \<Rightarrow> int \<Rightarrow> fault + (colors \<times> int)" where
  "add_color_pair tty s askpair fg bg =
     (case pairs_used s of
        None \<Rightarrow> Inl NullPointer
      | Some used \<Rightarrow>
          if askpair \<le> 0 then
            (case free_pair_scan tty s used 0 [] of
               Inl f \<Rightarrow> Inl f
             | Inr (pair, reads) \<Rightarrow>
                 if pair = COLOR_PAIRS tty then Inr (s, - 1)
                 else Inr (mark_pair tty s used pair fg bg))
          else if read_used s used askpair then Inr (s, - 1)
          else Inr (mark_pair tty s used askpair fg bg))"

text \<open>The loop of \<^verbatim>\<open>find_add_pair\<close> over the pairs from \<open>pair\<close> up to
  \<^verbatim>\<open>COLOR_PAIRS\<close>: \<open>Found\<close> is the early return of a used pair with the content
  asked for, \<open>Free\<close> carries \<^verbatim>\<open>free_pair\<close> out of the loop.\<close>

function find_pair_scan ::
  "terminal \<Rightarrow> colors \<Rightarrow> bool list \<Rightarrow> int \<Rightarrow> int \<Rightarrow> int \<Rightarrow> int \<Rightarrow> fault + scan_result" where
  "find_pair_scan tty s used fg bg pair free_pair =
     (if pair < COLOR_PAIRS tty then
        (if read_used s used pair \<and> pair_content s pair = Some (fg, bg) then Inr (Found pair)
         else if pair = 32767 then Inl ShortOverflow
         else find_pair_scan tty s used fg bg (pair + 1)
                (if \<not> read_used s used pair \<and> free_pair = - 1 then pair else free_pair))
      else Inr (Free free_pair))"
  by pat_completeness auto
termination
  by (relation "measure (\<lambda>(tty, s, used, fg, bg, pair, free_pair). nat (COLOR_PAIRS tty - pair))")
    auto

definition find_add_pair :: "terminal \<Rightarrow> colors \<Rightarrow> int \<Rightarrow> int \<Rightarrow> fault + (colors \<times> int)" where
  "find_add_pair tty s fg bg =
     (case pairs_used s of
        None \<Rightarrow> Inl NullPointer
      | Some used \<Rightarrow>
          (case find_pair_scan tty s used fg bg 1 (- 1) of
             Inl f \<Rightarrow> Inl f
           | Inr (Found pair) \<Rightarrow> Inr (s, pair)
           | Inr (Free free_pair) \<Rightarrow> add_color_pair tty s free_pair fg bg))"

subsection \<open>The rule list\<close>

text \<open>The search of \<^verbatim>\<open>add_color_rule\<close> for a rule of the same object and the same
  text: its position in the list. Two texts are the same when both are \<^verbatim>\<open>NULL\<close> or
  \<^verbatim>\<open>strcmp\<close> finds them equal.\<close>

fun find_rule :: "color_rule list \<Rightarrow> color_object \<Rightarrow> string option \<Rightarrow> nat option" where
  "find_rule [] object rule = None"
| "find_rule (this # rest) object rule =
     (if rule_object this = object \<and> rule_text this = rule then Some 0
      else map_option Suc (find_rule rest object rule))"

definition add_color_rule ::
  "terminal \<Rightarrow> colors \<Rightarrow> color_object \<Rightarrow> string option \<Rightarrow> int \<Rightarrow> int \<Rightarrow> fault + (colors \<times> int)"
  where
  "add_color_rule tty s object rule fg bg =
     (case find_rule (color_rules s) object rule of
        Some i \<Rightarrow>
          (case find_add_pair tty s fg bg of
             Inl f \<Rightarrow> Inl f
           | Inr (s', ret) \<Rightarrow>
               if ret < 0 then Inr (s', ret)
               else Inr (s'\<lparr>color_rules :=
                           (color_rules s')[i := (color_rules s' ! i)\<lparr>rule_pair := ret\<rparr>]\<rparr>, 0))
      | None \<Rightarrow>
          (case find_add_pair tty s fg bg of
             Inl f \<Rightarrow> Inl f
           | Inr (s', ret) \<Rightarrow>
               if ret < 0 then Inr (s', ret)
               else Inr (s'\<lparr>color_rules := color_rules s' @
                           [\<lparr>rule_pair = ret, rule_text = rule, rule_object = object\<rparr>]\<rparr>, 0)))"

subsection \<open>The predicate evaluator\<close>

function eval_rules :: "matcher \<Rightarrow> string option \<Rightarrow> task \<Rightarrow> bool \<Rightarrow> bool" where
  "eval_rules match_string None tsk selected = True"
| "eval_rules match_string (Some []) tsk selected = True"
| "eval_rules match_string (Some (c # cs)) tsk selected =
     (if c \<noteq> CHR ''~'' then eval_rules match_string (Some cs) tsk selected
      else if str_starts_with (c # cs) ''~S'' then
        (if selected then eval_rules match_string (Some (drop 2 (c # cs))) tsk selected
         else False)
      else
        (case sscanf_clause (c # cs) of
           None \<Rightarrow> False
         | Some (pattern, regex) \<Rightarrow>
             (let move = length regex + 3 in
              if pattern = CHR ''p'' then
                (if \<not> match_string (project tsk) regex then False
                 else eval_rules match_string (Some (drop move (c # cs))) tsk selected)
              else if pattern = CHR ''d'' then
                (if \<not> match_string (description tsk) regex then False
                 else eval_rules match_string (Some (drop move (c # cs))) tsk selected)
              else if pattern = CHR ''t'' then
                (if \<not> match_string (tags tsk) regex then False
                 else eval_rules match_string (Some (drop move (c # cs))) tsk selected)
              else if pattern = CHR ''r'' then
                (let tmp = (if priority tsk = CHR 0x00 then [] else [priority tsk]) in
                 if \<not> match_string (Some tmp) regex then False
                 else eval_rules match_string (Some (drop move (c # cs))) tsk selected)
              else False)))"
  by pat_completeness auto
termination
  by (relation "measure (\<lambda>(match_string, rule, tsk, selected).
        case rule of None \<Rightarrow> 0 | Some r \<Rightarrow> length r)") auto

subsection \<open>The resolver\<close>

text \<open>The walk of \<^verbatim>\<open>get_colors\<close> over the rules. \<open>pair\<close> is the local of
  that name; \<open>evaluated\<close> collects, in order, the texts handed to
  \<^verbatim>\<open>eval_rules\<close>. For a header or an error the first rule of that object sets
  \<^verbatim>\<open>done\<close> and its pair is taken at once.\<close>

fun get_colors_walk ::
  "matcher \<Rightarrow> color_rule list \<Rightarrow> color_object \<Rightarrow> task \<Rightarrow> bool \<Rightarrow> int \<Rightarrow> string option list
     \<Rightarrow> int \<times> string option list" where
  "get_colors_walk match_string [] object tsk selected pair evaluated = (pair, evaluated)"
| "get_colors_walk match_string (rule # rules) object tsk selected pair evaluated =
     (if object = rule_object rule then
        (case object of
           OBJECT_ERROR \<Rightarrow> (rule_pair rule, evaluated)
         | OBJECT_HEADER \<Rightarrow> (rule_pair rule, evaluated)
         | OBJECT_TASK \<Rightarrow>
             get_colors_walk match_string rules object tsk selected
               (if eval_rules match_string (rule_text rule) tsk selected
                then rule_pair rule else pair)
               (evaluated @ [rule_text rule])
         | OBJECT_NONE \<Rightarrow>
             get_colors_walk match_string rules object tsk selected pair evaluated)
      else get_colors_walk match_string rules object tsk selected pair evaluated)"

definition get_colors :: "matcher \<Rightarrow> colors \<Rightarrow> color_object \<Rightarrow> task \<Rightarrow> bool \<Rightarrow> int" where
  "get_colors match_string s object tsk selected =
     COLOR_PAIR (fst (get_colors_walk match_string (color_rules s) object tsk selected 0 []))"

text \<open>The predicate texts one call of \<^verbatim>\<open>get_colors\<close> evaluates.\<close>

definition get_colors_evaluated ::
  "matcher \<Rightarrow> colors \<Rightarrow> color_object \<Rightarrow> task \<Rightarrow> bool \<Rightarrow> string option list" where
  "get_colors_evaluated match_string s object tsk selected =
     snd (get_colors_walk match_string (color_rules s) object tsk selected 0 [])"

subsection \<open>Start-up\<close>

text \<open>The seven calls of \<^verbatim>\<open>set_default_colors\<close>, in order; their results are
  not looked at.\<close>

definition default_rules :: "(color_object \<times> string option \<times> int \<times> int) list" where
  "default_rules =
     [(OBJECT_HEADER, None, COLOR_BLUE, COLOR_BLACK),
      (OBJECT_TASK, None, - 1, - 1),
      (OBJECT_TASK, Some (''~r '[Mm]'' @ [CHR 0x27]), COLOR_YELLOW, - 1),
      (OBJECT_TASK, Some (''~d '' @ [CHR 0x27, CHR 0x5C] @ ''?'' @ [CHR 0x27]), COLOR_GREEN, - 1),
      (OBJECT_TASK, Some (''~p 'task*'' @ [CHR 0x27]), COLOR_RED, - 1),
      (OBJECT_TASK, Some ''~S'', COLOR_CYAN, COLOR_BLACK),
      (OBJECT_ERROR, None, COLOR_RED, - 1)]"

fun add_rules ::
  "terminal \<Rightarrow> colors \<Rightarrow> (color_object \<times> string option \<times> int \<times> int) list \<Rightarrow> fault + colors"
  where
  "add_rules tty s [] = Inr s"
| "add_rules tty s ((object, rule, fg, bg) # rest) =
     (case add_color_rule tty s object rule fg bg of
        Inl f \<Rightarrow> Inl f
      | Inr (s', ret) \<Rightarrow> add_rules tty s' rest)"

definition set_default_colors :: "terminal \<Rightarrow> colors \<Rightarrow> fault + (colors \<times> int)" where
  "set_default_colors tty s =
     (case add_rules tty s default_rules of Inl f \<Rightarrow> Inl f | Inr s' \<Rightarrow> Inr (s', 0))"

definition init_colors :: "terminal \<Rightarrow> colors \<Rightarrow> fault + (colors \<times> int)" where
  "init_colors tty s =
     (let s1 = s\<lparr>use_colors := False\<rparr> in
      if \<not> start_color_ok tty then Inr (s1, 1)
      else if \<not> use_default_colors_ok tty then Inr (s1, 2)
      else
        (let s2 = s1\<lparr>use_colors := has_colors tty, colors_initialized := True\<rparr> in
         if has_colors tty then
           (let table = replicate (nat (COLOR_PAIRS tty)) False;
                s3 = write_used (s2\<lparr>pairs_used := Some table\<rparr>) table 0
            in set_default_colors tty s3)
         else Inr (s2, 3)))"

text \<open>The globals as the program starts: no table, no rule.\<close>

definition initial_colors :: "(int \<Rightarrow> bool) \<Rightarrow> colors" where
  "initial_colors memory =
     \<lparr>use_colors = False, colors_initialized = False, pairs_used = None, color_rules = [],
      pair_table = (\<lambda>pair. None), past_table = memory\<rparr>"

subsection \<open>Colour names\<close>

definition colors_map :: "(string \<times> int) list" where
  "colors_map =
     [(''black'', COLOR_BLACK), (''red'', COLOR_RED), (''green'', COLOR_GREEN),
      (''yellow'', COLOR_YELLOW), (''blue'', COLOR_BLUE), (''magenta'', COLOR_MAGENTA),
      (''cyan'', COLOR_CYAN), (''white'', COLOR_WHITE)]"

text \<open>Modelled from the spec: \<^verbatim>\<open>str_eq\<close> (common.h) is not among the sources; a
  colour name is accepted when it is one of the eight names, so the test is equality of
  the two strings.\<close>

definition str_eq :: "string \<Rightarrow> string \<Rightarrow> bool" where
  "str_eq x y = (x = y)"

text \<open>The loop of \<^verbatim>\<open>parse_color\<close> over the map: the colour of the first entry whose
  name \<^verbatim>\<open>str_eq\<close> finds equal.\<close>

fun mapped_color :: "(string \<times> int) list \<Rightarrow> string \<Rightarrow> int option" where
  "mapped_color [] name = None"
| "mapped_color ((entry, color) # rest) name =
     (if str_eq entry name then Some color else mapped_color rest name)"

text \<open>\<^verbatim>\<open>parse_color\<close>: a number, then \<^verbatim>\<open>colorNNN\<close>, then a name of the map,
  else \<open>-2\<close>.\<close>

definition parse_color :: "string \<Rightarrow> fault + int" where
  "parse_color name =
     (case scan_d None name of
        Some v \<Rightarrow> store_int v
      | None \<Rightarrow>
          (case (if take 5 name = ''color'' then scan_d (Some 3) (drop 5 name) else None) of
             Some v \<Rightarrow> store_int v
           | None \<Rightarrow>
               (case mapped_color colors_map name of
                  Some color \<Rightarrow> Inr color
                | None \<Rightarrow> Inr (- 2))))"

subsection \<open>Notions of the specification\<close>

text \<open>The state \<^verbatim>\<open>init_colors\<close> leaves on a colour terminal, and every later call
  keeps: the usage table is allocated with \<^verbatim>\<open>COLOR_PAIRS\<close> entries, a
  \<^verbatim>\<open>short\<close> can count them, and entry 0 is marked used.\<close>

definition pool_ready :: "terminal \<Rightarrow> colors \<Rightarrow> bool" where
  "pool_ready tty s =
     (case pairs_used s of
        None \<Rightarrow> False
      | Some used \<Rightarrow> int (length used) = COLOR_PAIRS tty \<and> COLOR_PAIRS tty \<le> 32767
                     \<and> used \<noteq> [] \<and> hd used)"

definition slot_used :: "colors \<Rightarrow> int \<Rightarrow> bool" where
  "slot_used s pair =
     (case pairs_used s of None \<Rightarrow> False | Some used \<Rightarrow> read_used s used pair)"

text \<open>No two used slots from 1 up hold the same content.\<close>

definition no_duplicate_pairs :: "terminal \<Rightarrow> colors \<Rightarrow> bool" where
  "no_duplicate_pairs tty s =
     (\<forall>p \<in> {1..<COLOR_PAIRS tty}. \<forall>q \<in> {1..<COLOR_PAIRS tty}.
        slot_used s p \<and> slot_used s q \<and> pair_content s p \<noteq> None
        \<and> pair_content s p = pair_content s q \<longrightarrow> p = q)"

text \<open>A rule matches a request: it is of the object asked for and, for a task, its
  predicate holds.\<close>

definition rule_matches :: "matcher \<Rightarrow> color_object \<Rightarrow> task \<Rightarrow> bool \<Rightarrow> color_rule \<Rightarrow> bool" where
  "rule_matches match_string object tsk selected rule =
     (rule_object rule = object \<and>
      (object = OBJECT_HEADER \<or> object = OBJECT_ERROR \<or>
       (object = OBJECT_TASK \<and> eval_rules match_string (rule_text rule) tsk selected)))"

text \<open>The clause \<^verbatim>\<open>~<letter> '<pattern>'\<close> of the specification, as text, and the
  field its letter selects: \<^verbatim>\<open>p\<close> the project, \<^verbatim>\<open>d\<close> the description,
  \<^verbatim>\<open>t\<close> the tags, \<^verbatim>\<open>r\<close> the priority as a string of one character.\<close>

definition clause_field :: "char \<Rightarrow> task \<Rightarrow> string option" where
  "clause_field letter tsk =
     (if letter = CHR ''p'' then project tsk
      else if letter = CHR ''d'' then description tsk
      else if letter = CHR ''t'' then tags tsk
      else Some (if priority tsk = CHR 0x00 then [] else [priority tsk]))"

definition clause_text :: "char \<Rightarrow> string \<Rightarrow> string" where
  "clause_text letter pat = [CHR ''~'', letter, CHR '' '', CHR 0x27] @ pat @ [CHR 0x27]"

subsection \<open>Example data\<close>

text \<open>A matcher for the examples: the needle taken literally, found anywhere in the
  haystack, as a regular expression without special characters asks; a \<^verbatim>\<open>NULL\<close>
  haystack never matches.\<close>

fun occurs_in :: "string \<Rightarrow> string \<Rightarrow> bool" where
  "occurs_in needle [] = (needle = [])"
| "occurs_in needle (c # cs) = (take (length needle) (c # cs) = needle \<or> occurs_in needle cs)"

definition literal_match :: matcher where
  "literal_match haystack needle =
     (case haystack of None \<Rightarrow> False | Some h \<Rightarrow> occurs_in needle h)"

definition example_task :: task where
  "example_task =
     \<lparr>description = Some ''is this done?'', project = Some ''abc'', tags = None,
      priority = CHR ''M''\<rparr>"

definition small_terminal :: terminal where
  "small_terminal =
     \<lparr>COLOR_PAIRS = 3, start_color_ok = True, use_default_colors_ok = True, has_colors = True,
      init_pair_ok = (\<lambda>pair fg bg. True)\<rparr>"

definition mono_terminal :: terminal where
  "mono_terminal =
     \<lparr>COLOR_PAIRS = 3, start_color_ok = True, use_default_colors_ok = True, has_colors = False,
      init_pair_ok = (\<lambda>pair fg bg. True)\<rparr>"


definition full_pool :: colors where
  "full_pool =
     \<lparr>use_colors = True, colors_initialized = True, pairs_used = Some [True, True, True],
      color_rules =
        [\<lparr>rule_pair = 1, rule_text = None, rule_object = OBJECT_HEADER\<rparr>,
         \<lparr>rule_pair = 2, rule_text = Some ''~S'', rule_object = OBJECT_TASK\<rparr>],
      pair_table = [1 \<mapsto> (4, 0), 2 \<mapsto> (- 1, - 1)], past_table = (\<lambda>pair. False)\<rparr>"

declare find_pair_scan.simps [simp del]
declare free_pair_scan.simps [simp del]

section \<open>Properties\<close>

subsection \<open>The resolver and the evaluator\<close>

lemma eval_selected_clause:
  "eval_rules match_string (Some (''~S'' @ rest)) tsk selected
     = (selected \<and> eval_rules match_string (Some rest) tsk selected)"
  by (simp add: str_starts_with_def)

text \<open>C6. The predicate \<^verbatim>\<open>~S\<close> evaluates to the selection flag, whatever the task
  and the matcher; the clause takes two characters, and evaluation goes on with the
  rest of the text.\<close>

theorem eval_rules_selected_clause:
  "eval_rules match_string (Some ''~S'') tsk selected = selected
   \<and> eval_rules match_string (Some (''~S'' @ rest)) tsk selected
       = (selected \<and> eval_rules match_string (Some rest) tsk selected)"
  using eval_selected_clause [of match_string "[]" tsk selected]
    eval_selected_clause [of match_string rest tsk selected] by simp

lemma walk_task:
  "get_colors_walk match_string rules OBJECT_TASK tsk selected pair evaluated =
     (last (pair # map rule_pair (filter (\<lambda>r. rule_object r = OBJECT_TASK
          \<and> eval_rules match_string (rule_text r) tsk selected) rules)),
      evaluated @ map rule_text (filter (\<lambda>r. rule_object r = OBJECT_TASK) rules))"
  by (induction rules arbitrary: pair evaluated) auto

lemma walk_header:
  "get_colors_walk match_string rules OBJECT_HEADER tsk selected pair evaluated =
     (case find (\<lambda>r. rule_object r = OBJECT_HEADER) rules of
        None \<Rightarrow> pair | Some r \<Rightarrow> rule_pair r, evaluated)"
  by (induction rules arbitrary: pair evaluated) auto

lemma walk_error:
  "get_colors_walk match_string rules OBJECT_ERROR tsk selected pair evaluated =
     (case find (\<lambda>r. rule_object r = OBJECT_ERROR) rules of
        None \<Rightarrow> pair | Some r \<Rightarrow> rule_pair r, evaluated)"
  by (induction rules arbitrary: pair evaluated) auto

lemma walk_no_match:
  "\<not> list_ex (rule_matches match_string object tsk selected) rules \<Longrightarrow>
   fst (get_colors_walk match_string rules object tsk selected pair evaluated) = pair"
  by (induction rules arbitrary: pair evaluated)
     (auto simp: rule_matches_def split: color_object.splits)

text \<open>C1. For the object \<^verbatim>\<open>OBJECT_TASK\<close>, \<^verbatim>\<open>get_colors\<close> hands the text of every
  task rule to \<^verbatim>\<open>eval_rules\<close>, in the order of the rule list, and returns (as the
  attribute \<^verbatim>\<open>COLOR_PAIR(pair)\<close>) the pair of the last task rule whose predicate
  held, 0 when none did. With the rules [task / no text \<rightarrow> A, task / \<^verbatim>\<open>~S\<close> \<rightarrow> B] a
  selected task gets B and an unselected one gets A.\<close>

theorem get_colors_task_cascade:
  "get_colors match_string s OBJECT_TASK tsk selected =
     COLOR_PAIR (last (0 # map rule_pair (filter (\<lambda>r. rule_object r = OBJECT_TASK
          \<and> eval_rules match_string (rule_text r) tsk selected) (color_rules s))))
   \<and> get_colors_evaluated match_string s OBJECT_TASK tsk selected =
       map rule_text (filter (\<lambda>r. rule_object r = OBJECT_TASK) (color_rules s))
   \<and> get_colors match_string
        (s\<lparr>color_rules := [\<lparr>rule_pair = A, rule_text = None, rule_object = OBJECT_TASK\<rparr>,
                            \<lparr>rule_pair = B, rule_text = Some ''~S'', rule_object = OBJECT_TASK\<rparr>]\<rparr>)
        OBJECT_TASK tsk True = COLOR_PAIR B
   \<and> get_colors match_string
        (s\<lparr>color_rules := [\<lparr>rule_pair = A, rule_text = None, rule_object = OBJECT_TASK\<rparr>,
                            \<lparr>rule_pair = B, rule_text = Some ''~S'', rule_object = OBJECT_TASK\<rparr>]\<rparr>)
        OBJECT_TASK tsk False = COLOR_PAIR A"
  by (simp add: get_colors_def get_colors_evaluated_def walk_task str_starts_with_def)

text \<open>C2. For the objects \<^verbatim>\<open>OBJECT_HEADER\<close> and \<^verbatim>\<open>OBJECT_ERROR\<close>,
  \<^verbatim>\<open>get_colors\<close> returns the pair of the first rule of that object, whatever the
  task, the selection flag, the matcher and the texts stored on the rules, and hands no
  text to \<^verbatim>\<open>eval_rules\<close>.\<close>

theorem get_colors_header_error_first:
  "get_colors match_string s OBJECT_HEADER tsk selected =
     COLOR_PAIR (case find (\<lambda>r. rule_object r = OBJECT_HEADER) (color_rules s) of
        None \<Rightarrow> 0 | Some r \<Rightarrow> rule_pair r)
   \<and> get_colors_evaluated match_string s OBJECT_HEADER tsk selected = []
   \<and> get_colors match_string s OBJECT_ERROR tsk selected =
     COLOR_PAIR (case find (\<lambda>r. rule_object r = OBJECT_ERROR) (color_rules s) of
        None \<Rightarrow> 0 | Some r \<Rightarrow> rule_pair r)
   \<and> get_colors_evaluated match_string s OBJECT_ERROR tsk selected = []"
  by (simp add: get_colors_def get_colors_evaluated_def walk_header walk_error)

lemma find_add_pair_null: "pairs_used s = None \<Longrightarrow> find_add_pair tty s fg bg = Inl NullPointer"
  by (simp add: find_add_pair_def)

lemma add_color_rule_null:
  "pairs_used s = None \<Longrightarrow> add_color_rule tty s object rule fg bg = Inl NullPointer"
  by (simp add: add_color_rule_def find_add_pair_null split: option.splits)

text \<open>C8. When \<^verbatim>\<open>init_colors\<close> finds that the terminal has no colours it returns 3
  and installs no rule: the state it leaves differs from the one it found in the two
  flags only. Where the rule list was empty (as it is when the program starts), every
  \<^verbatim>\<open>get_colors\<close> call on that state answers 0, and where the usage table was not
  allocated a later \<^verbatim>\<open>add_color_rule\<close> cannot add a rule. In any state,
  \<^verbatim>\<open>get_colors\<close> answers 0 when no rule matches.\<close>

theorem no_colors_default_pair:
  "(start_color_ok tty \<and> use_default_colors_ok tty \<and> \<not> has_colors tty \<longrightarrow>
      init_colors tty s = Inr (s\<lparr>use_colors := False, colors_initialized := True\<rparr>, 3)
      \<and> (color_rules s = [] \<longrightarrow>
            get_colors match_string (s\<lparr>use_colors := False, colors_initialized := True\<rparr>)
              object tsk selected = 0)
      \<and> (pairs_used s = None \<longrightarrow>
            add_color_rule tty (s\<lparr>use_colors := False, colors_initialized := True\<rparr>)
              object' rule fg bg = Inl NullPointer))
   \<and> color_rules (initial_colors memory) = [] \<and> pairs_used (initial_colors memory) = None
   \<and> (\<not> list_ex (rule_matches match_string object tsk selected) (color_rules s) \<longrightarrow>
        get_colors match_string s object tsk selected = 0)"
  by (auto simp: init_colors_def initial_colors_def get_colors_def COLOR_PAIR_def
      walk_no_match add_color_rule_null)

lemma eval_rules_unknown_letter:
  "c \<notin> set ''Spdtr'' \<Longrightarrow> eval_rules match_string (Some (CHR ''~'' # c # rest)) tsk selected = False"
  by (auto simp: str_starts_with_def Let_def split: option.splits list.splits if_splits)

lemma sscanf_clause_no_quote:
  "dropWhile isspace rest = [] \<or> hd (dropWhile isspace rest) \<noteq> CHR 0x27 \<Longrightarrow>
   sscanf_clause (t # c # rest) = None"
proof (cases "dropWhile isspace rest")
  case Nil
  then show ?thesis by (simp del: dropWhile_eq_Nil_conv)
next
  case (Cons q body)
  assume "dropWhile isspace rest = [] \<or> hd (dropWhile isspace rest) \<noteq> CHR 0x27"
  with Cons have "q \<noteq> CHR 0x27" by simp
  with Cons show ?thesis by simp
qed

lemma eval_rules_no_opening_quote:
  "c \<noteq> CHR ''S'' \<Longrightarrow> dropWhile isspace rest = [] \<or> hd (dropWhile isspace rest) \<noteq> CHR 0x27 \<Longrightarrow>
   eval_rules match_string (Some (CHR ''~'' # c # rest)) tsk selected = False"
  using sscanf_clause_no_quote [of rest "CHR ''~''" c]
  by (simp add: str_starts_with_def del: sscanf_clause.simps)

lemma eval_rules_empty_pattern:
  "c \<noteq> CHR ''S'' \<Longrightarrow>
   eval_rules match_string (Some (CHR ''~'' # c # CHR '' '' # CHR 0x27 # CHR 0x27 # rest)) tsk selected = False"
  by (simp add: str_starts_with_def isspace_def)

lemma sscanf_clause_text:
  "pat \<noteq> [] \<Longrightarrow> CHR 0x27 \<notin> set pat \<Longrightarrow>
   sscanf_clause (clause_text letter pat @ rest) = Some (letter, pat)"
proof -
  assume a: "pat \<noteq> []" "CHR 0x27 \<notin> set pat"
  have "takeWhile (\<lambda>x. x \<noteq> CHR 0x27) (pat @ CHR 0x27 # rest) = pat"
    using a(2) by (simp add: takeWhile_append)
  with a(1) show ?thesis by (simp add: clause_text_def isspace_def)
qed

lemma drop_clause_text:
  "pat \<noteq> [] \<Longrightarrow> drop (length pat + 3) (clause_text letter pat @ rest) = last pat # CHR 0x27 # rest"
proof -
  assume "pat \<noteq> []"
  then obtain xs x where p: "pat = xs @ [x]" by (cases pat rule: rev_cases) auto
  let ?head = "[CHR ''~'', letter, CHR '' '', CHR 0x27] @ xs"
  have "clause_text letter pat @ rest = ?head @ (last pat # CHR 0x27 # rest)"
    by (simp add: clause_text_def p)
  moreover have "length pat + 3 = length ?head" by (simp add: p)
  ultimately show ?thesis by (metis append_eq_conv_conj)
qed

lemma eval_rules_clause:
  assumes "letter \<in> set ''pdtr''" "pat \<noteq> []" "CHR 0x27 \<notin> set pat" "last pat \<noteq> CHR ''~''"
  shows "eval_rules match_string (Some (clause_text letter pat @ rest)) tsk selected =
         (match_string (clause_field letter tsk) pat
          \<and> eval_rules match_string (Some rest) tsk selected)"
proof -
  have ns: "\<not> str_starts_with (clause_text letter pat @ rest) ''~S''"
    using assms(1) by (auto simp: str_starts_with_def clause_text_def)
  have tl: "eval_rules match_string (Some (last pat # CHR 0x27 # rest)) tsk selected
      = eval_rules match_string (Some rest) tsk selected"
    using assms(4) by simp
  obtain cs where cs: "clause_text letter pat @ rest = CHR ''~'' # cs"
    by (simp add: clause_text_def)
  have "eval_rules match_string (Some (CHR ''~'' # cs)) tsk selected =
         (match_string (clause_field letter tsk) pat
          \<and> eval_rules match_string (Some rest) tsk selected)"
    using ns sscanf_clause_text [OF assms(2,3), of letter rest]
      drop_clause_text [OF assms(2), of letter rest] tl assms(1)
    unfolding cs
    by (auto simp: clause_field_def Let_def)
  then show ?thesis by (simp add: cs)
qed

text \<open>C5. Evaluation is total and answers a truth value, and an unknown field letter, a
  missing opening quote or an empty pattern give false (the lemmas above). Two inputs
  where the code leaves the claim: a clause whose closing quote is missing is accepted
  and evaluates to true when the field matches (\<^verbatim>\<open>sscanf\<close> returns 2 before the
  closing quote of its format is looked at), and a well-formed clause whose pattern ends
  in a tilde makes the predicate false although the field matches (evaluation resumes
  \<^verbatim>\<open>strlen(regex)+3\<close> characters on, at the last character of the pattern).\<close>

theorem eval_rules_malformed_accepted:
  "sscanf_clause ''~p 'abc'' = Some (CHR ''p'', ''abc'')
   \<and> eval_rules literal_match (Some ''~p 'abc'') example_task False = True
   \<and> literal_match (Some ''ab~'') ''ab~'' = True
   \<and> eval_rules literal_match (Some (''~p 'ab~'' @ [CHR 0x27]))
        (example_task\<lparr>project := Some ''ab~''\<rparr>) True = False"
  by (simp add: isspace_def literal_match_def example_task_def str_starts_with_def)

subsection \<open>The pair pool and the rule list\<close>


lemma find_pair_scan_result:
  "COLOR_PAIRS tty \<le> 32767 \<Longrightarrow> 0 \<le> pair \<Longrightarrow>
   find_pair_scan tty s used fg bg pair free_pair = r \<Longrightarrow>
   (\<exists>p. r = Inr (Found p) \<and> pair \<le> p \<and> p < COLOR_PAIRS tty \<and> read_used s used p
        \<and> pair_content s p = Some (fg, bg))
   \<or> (\<exists>f. r = Inr (Free f)
        \<and> (\<forall>q. pair \<le> q \<and> q < COLOR_PAIRS tty \<longrightarrow>
               \<not> (read_used s used q \<and> pair_content s q = Some (fg, bg)))
        \<and> (if free_pair \<noteq> - 1 then f = free_pair
            else (f = - 1 \<and> (\<forall>q. pair \<le> q \<and> q < COLOR_PAIRS tty \<longrightarrow> read_used s used q))
                 \<or> (pair \<le> f \<and> f < COLOR_PAIRS tty \<and> \<not> read_used s used f)))"
proof (induction tty s used fg bg pair free_pair arbitrary: r rule: find_pair_scan.induct)
  case (1 tty s used fg bg pair free_pair)
  show ?case
  proof (cases "pair < COLOR_PAIRS tty")
    case False
    with "1.prems" show ?thesis by (subst (asm) find_pair_scan.simps) auto
  next
    case inr: True
    show ?thesis
    proof (cases "read_used s used pair \<and> pair_content s pair = Some (fg, bg)")
      case True
      with inr "1.prems" show ?thesis
        by (subst (asm) find_pair_scan.simps) auto
    next
      case nh: False
      from inr "1.prems" have n32: "pair \<noteq> 32767" by auto
      let ?fp = "if \<not> read_used s used pair \<and> free_pair = - 1 then pair else free_pair"
      have r: "find_pair_scan tty s used fg bg (pair + 1) ?fp = r"
        using "1.prems"(3) inr nh n32 by (subst (asm) find_pair_scan.simps) auto
      have step: "\<And>q. pair \<le> q \<Longrightarrow> q = pair \<or> pair + 1 \<le> q" by auto
      from "1.IH" [OF inr nh n32 "1.prems"(1) _ r] "1.prems"(2)
      consider (found) p where "r = Inr (Found p)" "pair + 1 \<le> p" "p < COLOR_PAIRS tty"
          "read_used s used p" "pair_content s p = Some (fg, bg)"
        | (free) f where "r = Inr (Free f)"
          "\<forall>q. pair + 1 \<le> q \<and> q < COLOR_PAIRS tty \<longrightarrow>
               \<not> (read_used s used q \<and> pair_content s q = Some (fg, bg))"
          "if ?fp \<noteq> - 1 then f = ?fp
            else (f = - 1 \<and> (\<forall>q. pair + 1 \<le> q \<and> q < COLOR_PAIRS tty \<longrightarrow> read_used s used q))
                 \<or> (pair + 1 \<le> f \<and> f < COLOR_PAIRS tty \<and> \<not> read_used s used f)"
        by fastforce
      then show ?thesis
      proof cases
        case found
        then show ?thesis by auto
      next
        case free
        have a: "\<forall>q. pair \<le> q \<and> q < COLOR_PAIRS tty \<longrightarrow>
               \<not> (read_used s used q \<and> pair_content s q = Some (fg, bg))"
          using free(2) nh step by blast
        have b: "if free_pair \<noteq> - 1 then f = free_pair
            else (f = - 1 \<and> (\<forall>q. pair \<le> q \<and> q < COLOR_PAIRS tty \<longrightarrow> read_used s used q))
                 \<or> (pair \<le> f \<and> f < COLOR_PAIRS tty \<and> \<not> read_used s used f)"
        proof (cases "free_pair \<noteq> - 1")
          case True
          with free(3) show ?thesis by auto
        next
          case fp: False
          show ?thesis
          proof (cases "read_used s used pair")
            case True
            with fp free(3) step show ?thesis by (auto split: if_splits) 
          next
            case False
            with fp free(3) "1.prems"(2) inr show ?thesis by (auto split: if_splits)
          qed
        qed
        from free(1) a b show ?thesis by blast
      qed
    qed
  qed
qed

lemma free_pair_scan_full:
  "COLOR_PAIRS tty \<le> 32767 \<Longrightarrow> pair \<le> COLOR_PAIRS tty \<Longrightarrow>
   (\<forall>q. pair \<le> q \<and> q < COLOR_PAIRS tty \<longrightarrow> read_used s used q) \<Longrightarrow>
   free_pair_scan tty s used pair reads = Inr (COLOR_PAIRS tty, reads @ [pair..COLOR_PAIRS tty])"
proof (induction tty s used pair reads rule: free_pair_scan.induct)
  case (1 tty s used pair reads)
  show ?case
  proof (cases "pair < COLOR_PAIRS tty")
    case False
    with "1.prems" have "pair = COLOR_PAIRS tty" by simp
    then show ?thesis by (subst free_pair_scan.simps) simp
  next
    case True
    with "1.prems" have u: "read_used s used pair" and n32: "pair \<noteq> 32767" by auto
    have "free_pair_scan tty s used (pair + 1) (reads @ [pair])
            = Inr (COLOR_PAIRS tty, (reads @ [pair]) @ [pair + 1..COLOR_PAIRS tty])"
      using "1.IH" [OF _ n32] u True "1.prems" by auto
    moreover have "[pair..COLOR_PAIRS tty] = pair # [pair + 1..COLOR_PAIRS tty]"
      using True by (simp add: upto_rec1)
    ultimately show ?thesis using u True n32
      by (subst free_pair_scan.simps) simp
  qed
qed

lemma pool_readyD:
  assumes "pool_ready tty s"
  obtains used where "pairs_used s = Some used" "int (length used) = COLOR_PAIRS tty"
    "COLOR_PAIRS tty \<le> 32767" "0 < COLOR_PAIRS tty" "read_used s used 0" "used \<noteq> []" "hd used"
proof -
  from assms obtain used where u: "pairs_used s = Some used"
    "int (length used) = COLOR_PAIRS tty" "COLOR_PAIRS tty \<le> 32767" "used \<noteq> []" "hd used"
    by (auto simp: pool_ready_def split: option.splits)
  from u(4,5) have "read_used s used 0" by (cases used) (auto simp: read_used_def)
  moreover from u(2,4) have "0 < COLOR_PAIRS tty" by (cases used) auto
  ultimately show thesis using u that by blast
qed

lemma stored_color_same: "- 1 \<le> c \<Longrightarrow> stored_color c = c"
  by (simp add: stored_color_def)

lemma find_add_pair_outcome:
  assumes ready: "pool_ready tty s" and used: "pairs_used s = Some used"
  shows "(\<exists>p. 1 \<le> p \<and> p < COLOR_PAIRS tty \<and> read_used s used p
             \<and> pair_content s p = Some (fg, bg) \<and> find_add_pair tty s fg bg = Inr (s, p))
       \<or> ((\<forall>q. 1 \<le> q \<and> q < COLOR_PAIRS tty \<longrightarrow>
               \<not> (read_used s used q \<and> pair_content s q = Some (fg, bg)))
          \<and> (((\<forall>q. 0 \<le> q \<and> q < COLOR_PAIRS tty \<longrightarrow> read_used s used q)
                 \<and> find_add_pair tty s fg bg = Inr (s, - 1))
              \<or> (\<exists>f. 1 \<le> f \<and> f < COLOR_PAIRS tty \<and> \<not> read_used s used f
                    \<and> find_add_pair tty s fg bg =
                       (if init_pair_ok tty f fg bg
                        then Inr (s\<lparr>pair_table := (pair_table s)(f \<mapsto> (stored_color fg, stored_color bg)),
                                    pairs_used := Some (used[nat f := True])\<rparr>, f)
                        else Inr (s, - 1)))))"
proof -
  from ready used have len: "int (length used) = COLOR_PAIRS tty" and cp: "COLOR_PAIRS tty \<le> 32767"
    and zero: "read_used s used 0"
    by (auto elim!: pool_readyD)
  define r where "r = find_pair_scan tty s used fg bg 1 (- 1)"
  have fap: "find_add_pair tty s fg bg =
      (case r of Inl f \<Rightarrow> Inl f | Inr (Found pair) \<Rightarrow> Inr (s, pair)
        | Inr (Free free_pair) \<Rightarrow> add_color_pair tty s free_pair fg bg)"
    by (simp add: find_add_pair_def used r_def)
  from find_pair_scan_result [OF cp _ r_def [symmetric]]
  consider (found) p where "r = Inr (Found p)" "1 \<le> p" "p < COLOR_PAIRS tty" "read_used s used p"
      "pair_content s p = Some (fg, bg)"
    | (full) "r = Inr (Free (- 1))"
      "\<forall>q. 1 \<le> q \<and> q < COLOR_PAIRS tty \<longrightarrow> \<not> (read_used s used q \<and> pair_content s q = Some (fg, bg))"
      "\<forall>q. 1 \<le> q \<and> q < COLOR_PAIRS tty \<longrightarrow> read_used s used q"
    | (free) f where "r = Inr (Free f)"
      "\<forall>q. 1 \<le> q \<and> q < COLOR_PAIRS tty \<longrightarrow> \<not> (read_used s used q \<and> pair_content s q = Some (fg, bg))"
      "1 \<le> f" "f < COLOR_PAIRS tty" "\<not> read_used s used f"
    by fastforce
  then show ?thesis
  proof cases
    case found
    then show ?thesis using fap by auto
  next
    case full
    have all: "\<forall>q. 0 \<le> q \<and> q < COLOR_PAIRS tty \<longrightarrow> read_used s used q"
    proof (intro allI impI)
      fix q assume "0 \<le> q \<and> q < COLOR_PAIRS tty"
      then have "q = 0 \<or> (1 \<le> q \<and> q < COLOR_PAIRS tty)" by auto
      then show "read_used s used q" using zero full(3) by auto
    qed
    have "0 \<le> COLOR_PAIRS tty" using len by simp
    from free_pair_scan_full [OF cp this, of s used "[]"] all
    have "free_pair_scan tty s used 0 [] = Inr (COLOR_PAIRS tty, [] @ [0..COLOR_PAIRS tty])"
      by simp
    then have "add_color_pair tty s (- 1) fg bg = Inr (s, - 1)"
      by (simp add: add_color_pair_def used)
    with full all fap show ?thesis by simp
  next
    case free
    have inr: "0 \<le> f \<and> f < int (length used)" using free len by simp
    have "add_color_pair tty s f fg bg = Inr (mark_pair tty s used f fg bg)"
      using free by (simp add: add_color_pair_def used)
    moreover have "mark_pair tty s used f fg bg =
        (if init_pair_ok tty f fg bg
         then (s\<lparr>pair_table := (pair_table s)(f \<mapsto> (stored_color fg, stored_color bg)),
                 pairs_used := Some (used[nat f := True])\<rparr>, f)
         else (s, - 1))"
      using inr by (simp add: mark_pair_def init_pair_def write_used_def)
    ultimately have "find_add_pair tty s fg bg =
        (if init_pair_ok tty f fg bg
         then Inr (s\<lparr>pair_table := (pair_table s)(f \<mapsto> (stored_color fg, stored_color bg)),
                     pairs_used := Some (used[nat f := True])\<rparr>, f)
         else Inr (s, - 1))"
      using fap free(1) by simp
    with free show ?thesis by blast
  qed
qed

lemma fresh_slot_state:
  assumes ready: "pool_ready tty s" and used: "pairs_used s = Some used"
    and f: "1 \<le> f" "f < COLOR_PAIRS tty"
    and s': "s' = s\<lparr>pair_table := (pair_table s)(f \<mapsto> (fg, bg)),
                pairs_used := Some (used[nat f := True])\<rparr>"
  shows "pairs_used s' = Some (used[nat f := True])"
    and "\<And>q. 0 \<le> q \<Longrightarrow> q < COLOR_PAIRS tty \<Longrightarrow>
           read_used s' (used[nat f := True]) q = (q = f \<or> read_used s used q)"
    and "\<And>q. pair_content s' q = (if q = f then Some (fg, bg) else pair_content s q)"
    and "pool_ready tty s'"
    and "no_duplicate_pairs tty s \<Longrightarrow>
         \<forall>q. 1 \<le> q \<and> q < COLOR_PAIRS tty \<longrightarrow>
               \<not> (read_used s used q \<and> pair_content s q = Some (fg, bg)) \<Longrightarrow>
         no_duplicate_pairs tty s'"
    and "color_rules s' = color_rules s"
proof -
  from ready used have len: "int (length used) = COLOR_PAIRS tty" and cp: "COLOR_PAIRS tty \<le> 32767"
    and ne: "used \<noteq> []" and hd: "hd used"
    by (auto elim: pool_readyD)
  let ?used = "used[nat f := True]"
  show used': "pairs_used s' = Some ?used" using s' by simp
  show rd: "read_used s' ?used q = (q = f \<or> read_used s used q)"
    if "0 \<le> q" "q < COLOR_PAIRS tty" for q
  proof (cases "q = f")
    case True
    with that len show ?thesis by (simp add: read_used_def)
  next
    case False
    with that f(1) have "nat f \<noteq> nat q" by auto
    with that len False show ?thesis by (simp add: read_used_def)
  qed
  show pc: "pair_content s' q = (if q = f then Some (fg, bg) else pair_content s q)" for q
    using s' by (simp add: pair_content_def)
  show "pool_ready tty s'"
  proof -
    have "nat f \<noteq> 0" using f(1) by simp
    then have "?used ! 0 = used ! 0" by simp
    then have "hd ?used" using ne hd by (simp add: hd_conv_nth)
    then show ?thesis using used' len cp ne by (simp add: pool_ready_def)
  qed
  show "color_rules s' = color_rules s" using s' by simp
  show "no_duplicate_pairs tty s'" if nd: "no_duplicate_pairs tty s"
    and unmatched: "\<forall>q. 1 \<le> q \<and> q < COLOR_PAIRS tty \<longrightarrow>
               \<not> (read_used s used q \<and> pair_content s q = Some (fg, bg))"
    unfolding no_duplicate_pairs_def
  proof (intro ballI impI)
    fix p q
    assume p: "p \<in> {1..<COLOR_PAIRS tty}" and q: "q \<in> {1..<COLOR_PAIRS tty}"
      and h: "slot_used s' p \<and> slot_used s' q \<and> pair_content s' p \<noteq> None
               \<and> pair_content s' p = pair_content s' q"
    have su: "\<And>x. x \<in> {1..<COLOR_PAIRS tty} \<Longrightarrow> slot_used s' x = (x = f \<or> slot_used s x)"
      using rd used used' by (simp add: slot_used_def)
    have fresh_only: "\<And>x. x \<in> {1..<COLOR_PAIRS tty} \<Longrightarrow> slot_used s' x \<Longrightarrow>
        pair_content s' x = Some (fg, bg) \<Longrightarrow> x = f"
      using su pc unmatched used by (auto simp: slot_used_def split: if_splits)
    show "p = q"
    proof (cases "p = f \<or> q = f")
      case True
      with h p q fresh_only pc show ?thesis by metis
    next
      case False
      then have pf: "p \<noteq> f" "q \<noteq> f" by auto
      have 1: "slot_used s p" using h su [OF p] pf by simp
      have 2: "slot_used s q" using h su [OF q] pf by simp
      have pcp: "pair_content s' p = pair_content s p" using pc [of p] pf by simp
      have pcq: "pair_content s' q = pair_content s q" using pc [of q] pf by simp
      note h' = h [unfolded pcp pcq]
      have 3: "pair_content s p \<noteq> None" using h' by blast
      have 4: "pair_content s p = pair_content s q" using h' by blast
      from nd p q 1 2 3 4 show ?thesis unfolding no_duplicate_pairs_def by blast
    qed
  qed
qed

lemma find_add_pair_cases:
  assumes ready: "pool_ready tty s" and used: "pairs_used s = Some used"
    and call: "find_add_pair tty s fg bg = r"
  obtains (found) p where "r = Inr (s, p)" "1 \<le> p" "p < COLOR_PAIRS tty"
      "read_used s used p" "pair_content s p = Some (fg, bg)"
    | (failed) "r = Inr (s, - 1)"
    | (fresh) f where
        "r = Inr (s\<lparr>pair_table := (pair_table s)(f \<mapsto> (stored_color fg, stored_color bg)),
                pairs_used := Some (used[nat f := True])\<rparr>, f)"
        "1 \<le> f" "f < COLOR_PAIRS tty" "\<not> read_used s used f"
        "\<forall>q. 1 \<le> q \<and> q < COLOR_PAIRS tty \<longrightarrow>
               \<not> (read_used s used q \<and> pair_content s q = Some (fg, bg))"
  using find_add_pair_outcome [OF ready used, of fg bg] call
  by (auto split: if_splits)

lemma find_add_pair_keeps:
  assumes ready: "pool_ready tty s"
  shows "\<exists>s' P. find_add_pair tty s fg bg = Inr (s', P) \<and> pool_ready tty s'
           \<and> (no_duplicate_pairs tty s \<and> - 1 \<le> fg \<and> - 1 \<le> bg \<longrightarrow> no_duplicate_pairs tty s')
           \<and> color_rules s' = color_rules s \<and> (P < 0 \<longrightarrow> s' = s)"
proof -
  from ready obtain used where used: "pairs_used s = Some used" by (auto elim: pool_readyD)
  from ready used refl [of "find_add_pair tty s fg bg"] show ?thesis
  proof (cases rule: find_add_pair_cases)
    case (found p)
    with ready show ?thesis by simp
  next
    case failed
    with ready show ?thesis by simp
  next
    case (fresh f)
    note st = fresh_slot_state(4-6) [OF ready used fresh(2,3) refl,
        of "stored_color fg" "stored_color bg"]
    have "no_duplicate_pairs tty
        (s\<lparr>pair_table := (pair_table s)(f \<mapsto> (stored_color fg, stored_color bg)),
           pairs_used := Some (used[nat f := True])\<rparr>)"
      if "no_duplicate_pairs tty s" "- 1 \<le> fg" "- 1 \<le> bg"
      using st(2) [OF that(1)] fresh(5) that(2,3) by (simp add: stored_color_same)
    with st(1,3) fresh(1,2) show ?thesis by simp
  qed
qed


lemma small_range: "{1..<3::int} = {1, 2}" "{0..<3::int} = {0, 1, 2}"
  by auto


text \<open>C4. On a ready pool whose slots are all used, a request for a content that no
  slot from 1 up holds answers \<open>-1\<close> from \<^verbatim>\<open>find_add_pair\<close> and from
  \<^verbatim>\<open>add_color_rule\<close>, and the whole state (usage table, pair contents, rule list) is
  left as it was.\<close>

theorem pool_exhausted_unchanged:
  assumes ready: "pool_ready tty s"
    and full: "\<forall>p \<in> {0..<COLOR_PAIRS tty}. slot_used s p"
    and fresh: "\<forall>p \<in> {1..<COLOR_PAIRS tty}. pair_content s p \<noteq> Some (fg, bg)"
  shows "find_add_pair tty s fg bg = Inr (s, - 1)
         \<and> add_color_rule tty s object rule fg bg = Inr (s, - 1)"
proof -
  from ready obtain used where used: "pairs_used s = Some used" by (auto elim: pool_readyD)
  from find_add_pair_outcome [OF ready used, of fg bg] full fresh used
  have "find_add_pair tty s fg bg = Inr (s, - 1)"
    by (auto simp: slot_used_def)
  then show ?thesis by (simp add: add_color_rule_def split: option.splits)
qed

lemma find_rule_Some:
  "find_rule rules object rule = Some i \<Longrightarrow>
     i < length rules \<and> rule_object (rules ! i) = object \<and> rule_text (rules ! i) = rule
     \<and> (\<forall>j<i. \<not> (rule_object (rules ! j) = object \<and> rule_text (rules ! j) = rule))"
proof (induction rules arbitrary: i)
  case Nil
  then show ?case by simp
next
  case (Cons this rest)
  show ?case
  proof (cases "rule_object this = object \<and> rule_text this = rule")
    case True
    with Cons.prems show ?thesis by auto
  next
    case False
    with Cons.prems obtain k where k: "find_rule rest object rule = Some k" "i = Suc k" by auto
    from Cons.IH [OF k(1)] False k(2) show ?thesis
      by (auto simp: less_Suc_eq_0_disj)
  qed
qed

lemma find_rule_None:
  "find_rule rules object rule = None \<Longrightarrow>
     \<forall>r \<in> set rules. \<not> (rule_object r = object \<and> rule_text r = rule)"
  by (induction rules) (auto split: if_splits)

text \<open>C7. When the rule list holds a rule with the object and the text given (both texts
  \<^verbatim>\<open>NULL\<close>, or equal strings), \<^verbatim>\<open>add_color_rule\<close> returns and changes, in the
  rule list, at most the pair of one such rule: the list keeps its length, its order,
  every other rule, and every rule's object and text.\<close>

theorem add_color_rule_overwrites_in_place:
  assumes ready: "pool_ready tty s"
    and stored: "r \<in> set (color_rules s)" "rule_object r = object" "rule_text r = rule"
  shows "\<exists>s' ret i. add_color_rule tty s object rule fg bg = Inr (s', ret)
           \<and> i < length (color_rules s)
           \<and> rule_object (color_rules s ! i) = object \<and> rule_text (color_rules s ! i) = rule
           \<and> color_rules s' =
               (color_rules s)[i := (color_rules s ! i)\<lparr>rule_pair := rule_pair (color_rules s' ! i)\<rparr>]
           \<and> length (color_rules s') = length (color_rules s)
           \<and> map rule_text (color_rules s') = map rule_text (color_rules s)
           \<and> map rule_object (color_rules s') = map rule_object (color_rules s)"
proof -
  from stored find_rule_None [of "color_rules s" object rule]
  obtain i where i: "find_rule (color_rules s) object rule = Some i" by (cases "find_rule (color_rules s) object rule") auto
  note at = find_rule_Some [OF i]
  from find_add_pair_keeps [OF ready, of fg bg]
  obtain s1 P where fap: "find_add_pair tty s fg bg = Inr (s1, P)" "color_rules s1 = color_rules s"
    by blast
  let ?rules = "color_rules s"
  show ?thesis
  proof (cases "P < 0")
    case True
    then have "add_color_rule tty s object rule fg bg = Inr (s1, P)"
      by (simp add: add_color_rule_def i fap)
    moreover have "?rules = ?rules[i := (?rules ! i)\<lparr>rule_pair := rule_pair (?rules ! i)\<rparr>]"
      by (simp add: list_update_same_conv)
    ultimately show ?thesis using at fap(2) by (intro exI [of _ s1] exI [of _ P] exI [of _ i]) simp
  next
    case False
    let ?new = "?rules[i := (?rules ! i)\<lparr>rule_pair := P\<rparr>]"
    from False have call: "add_color_rule tty s object rule fg bg = Inr (s1\<lparr>color_rules := ?new\<rparr>, 0)"
      by (simp add: add_color_rule_def i fap)
    have "map rule_text ?new = map rule_text ?rules" "map rule_object ?new = map rule_object ?rules"
      using at by (simp_all add: map_update list_update_same_conv)
    with call at show ?thesis
      by (intro exI [of _ "s1\<lparr>color_rules := ?new\<rparr>"] exI [of _ 0] exI [of _ i]) simp
  qed
qed

text \<open>The state \<^verbatim>\<open>init_colors\<close> leaves on a colour terminal is ready and without
  duplicates, and \<^verbatim>\<open>add_color_rule\<close> keeps it ready, and without duplicates when
  the colours are from \<open>-1\<close> up: the hypotheses of the theorems above hold in the
  states the program reaches.\<close>

lemma add_color_rule_keeps:
  assumes ready: "pool_ready tty s"
  shows "\<exists>s' ret. add_color_rule tty s object rule fg bg = Inr (s', ret) \<and> pool_ready tty s'
           \<and> (no_duplicate_pairs tty s \<and> - 1 \<le> fg \<and> - 1 \<le> bg \<longrightarrow> no_duplicate_pairs tty s')"
proof -
  from find_add_pair_keeps [OF ready, of fg bg]
  obtain s1 P where fap: "find_add_pair tty s fg bg = Inr (s1, P)" "pool_ready tty s1"
    "no_duplicate_pairs tty s \<and> - 1 \<le> fg \<and> - 1 \<le> bg \<longrightarrow> no_duplicate_pairs tty s1" by blast
  have upd: "pool_ready tty (s1\<lparr>color_rules := rs\<rparr>)
      \<and> (no_duplicate_pairs tty s \<and> - 1 \<le> fg \<and> - 1 \<le> bg \<longrightarrow>
           no_duplicate_pairs tty (s1\<lparr>color_rules := rs\<rparr>))" for rs
  proof -
    have a: "slot_used (s1\<lparr>color_rules := rs\<rparr>) p = slot_used s1 p" for p
      by (simp add: slot_used_def read_used_def split: option.splits)
    have b: "pair_content (s1\<lparr>color_rules := rs\<rparr>) p = pair_content s1 p" for p
      by (simp add: pair_content_def)
    have c: "pool_ready tty (s1\<lparr>color_rules := rs\<rparr>) = pool_ready tty s1"
      by (simp add: pool_ready_def)
    have d: "no_duplicate_pairs tty (s1\<lparr>color_rules := rs\<rparr>) = no_duplicate_pairs tty s1"
      by (simp add: no_duplicate_pairs_def a b)
    from fap(2,3) show ?thesis by (simp add: c d)
  qed
  show ?thesis
    using fap upd by (auto simp: add_color_rule_def split: option.splits)
qed

lemma add_rules_keeps:
  "pool_ready tty s \<Longrightarrow>
   \<exists>s'. add_rules tty s rules = Inr s' \<and> pool_ready tty s'
       \<and> (no_duplicate_pairs tty s
            \<and> list_all (\<lambda>(object, predicate, fg, bg). - 1 \<le> fg \<and> - 1 \<le> bg) rules \<longrightarrow>
          no_duplicate_pairs tty s')"
proof (induction rules arbitrary: s)
  case Nil
  then show ?case by simp
next
  case (Cons rule rules)
  obtain object predicate fg bg where rule: "rule = (object, predicate, fg, bg)"
    by (cases rule) auto
  from add_color_rule_keeps [OF Cons.prems, of object predicate fg bg]
  obtain s1 ret where 1: "add_color_rule tty s object predicate fg bg = Inr (s1, ret)"
    "pool_ready tty s1"
    "no_duplicate_pairs tty s \<and> - 1 \<le> fg \<and> - 1 \<le> bg \<longrightarrow> no_duplicate_pairs tty s1" by blast
  from Cons.IH [OF 1(2)] 1(1,3) show ?case by (auto simp: rule)
qed

lemma init_colors_ready:
  assumes "start_color_ok tty" "use_default_colors_ok tty" "has_colors tty"
    and "0 < COLOR_PAIRS tty" "COLOR_PAIRS tty \<le> 32767"
  shows "\<exists>s'. init_colors tty s = Inr (s', 0) \<and> pool_ready tty s' \<and> no_duplicate_pairs tty s'"
proof -
  let ?table = "replicate (nat (COLOR_PAIRS tty)) False"
  let ?s2 = "s\<lparr>use_colors := True, colors_initialized := True, pairs_used := Some ?table\<rparr>"
  let ?s3 = "?s2\<lparr>pairs_used := Some (?table[0 := True])\<rparr>"
  have w: "write_used ?s2 ?table 0 = ?s3" using assms(4) by (simp add: write_used_def)
  have ne: "?table \<noteq> []" using assms(4) by simp
  then have "hd (?table[0 := True])" by (cases ?table) auto
  with assms(4,5) ne have ready: "pool_ready tty ?s3" by (simp add: pool_ready_def)
  have "\<not> slot_used ?s3 p" if "p \<in> {1..<COLOR_PAIRS tty}" for p
  proof -
    from that have "nat p \<noteq> 0" "nat p < nat (COLOR_PAIRS tty)" by auto
    with that show ?thesis by (simp add: slot_used_def read_used_def)
  qed
  then have nodup: "no_duplicate_pairs tty ?s3" by (simp add: no_duplicate_pairs_def)
  have colours: "list_all (\<lambda>(object, predicate, fg, bg). - 1 \<le> fg \<and> - 1 \<le> bg) default_rules"
    by (simp add: default_rules_def COLOR_BLUE_def COLOR_BLACK_def COLOR_YELLOW_def
        COLOR_GREEN_def COLOR_RED_def COLOR_CYAN_def)
  from add_rules_keeps [OF ready, of default_rules] nodup colours
  obtain s' where "add_rules tty ?s3 default_rules = Inr s'" "pool_ready tty s'"
    "no_duplicate_pairs tty s'" by blast
  then show ?thesis using assms(1-3) w
    by (simp add: init_colors_def set_default_colors_def)
qed

text \<open>C9. The free-slot search of \<^verbatim>\<open>add_color_pair\<close> on a table of three slots, all
  used: the loop tests \<^verbatim>\<open>pairs_used[pair]\<close> before \<^verbatim>\<open>pair<COLOR_PAIRS\<close>, so the
  indices read are 0, 1, 2 and 3, the last one past the end of the table; the call then
  returns \<open>-1\<close>. (\<open>free_pair_scan_full\<close> shows the same for every full table.)\<close>

theorem free_slot_search_reads_past_table:
  "pairs_used full_pool = Some [True, True, True] \<and> COLOR_PAIRS small_terminal = 3
   \<and> free_pair_scan small_terminal full_pool [True, True, True] 0 [] = Inr (3, [0, 1, 2, 3])
   \<and> add_color_pair small_terminal full_pool (- 1) 1 (- 1) = Inr (full_pool, - 1)"
  by (simp add: add_color_pair_def free_pair_scan.simps read_used_def full_pool_def
      small_terminal_def)

subsection \<open>Colour names\<close>

lemma isdigit_value: "isdigit c \<Longrightarrow> 0 \<le> digit_value c \<and> digit_value c \<le> 9"
  by (auto simp: isdigit_def digit_value_def)

lemma isdigit_not_space: "isdigit c \<Longrightarrow> \<not> isspace c \<and> c \<noteq> CHR ''-'' \<and> c \<noteq> CHR ''+''"
  by (auto simp: isdigit_def isspace_def)

lemma decimal_foldl_nonneg:
  "list_all isdigit ds \<Longrightarrow> 0 \<le> a \<Longrightarrow> 0 \<le> foldl (\<lambda>a c. 10 * a + digit_value c) a ds"
proof (induction ds arbitrary: a)
  case Nil
  then show ?case by simp
next
  case (Cons d ds)
  from Cons.prems have "0 \<le> 10 * a + digit_value d" using isdigit_value [of d] by simp
  with Cons show ?case by simp
qed

lemma decimal_nonneg: "list_all isdigit ds \<Longrightarrow> 0 \<le> decimal ds"
  by (simp add: decimal_def decimal_foldl_nonneg)

lemma decimal_foldl_bound:
  "list_all isdigit ds \<Longrightarrow> 0 \<le> a \<Longrightarrow>
   foldl (\<lambda>a c. 10 * a + digit_value c) a ds < (a + 1) * 10 ^ length ds"
proof (induction ds arbitrary: a)
  case Nil
  then show ?case by simp
next
  case (Cons d ds)
  from Cons.prems have d: "0 \<le> digit_value d" "digit_value d \<le> 9" using isdigit_value [of d] by simp_all
  with Cons.prems have "0 \<le> 10 * a + digit_value d" by simp
  from Cons.IH [OF _ this] Cons.prems
  have "foldl (\<lambda>a c. 10 * a + digit_value c) (10 * a + digit_value d) ds
          < (10 * a + digit_value d + 1) * 10 ^ length ds" by simp
  also have "\<dots> \<le> (10 * a + 10) * 10 ^ length ds"
    using d by (intro mult_right_mono) simp_all
  finally show ?case by (simp add: algebra_simps)
qed

lemma decimal_short: "list_all isdigit ds \<Longrightarrow> length ds \<le> 3 \<Longrightarrow> decimal ds < 1000"
proof -
  assume a: "list_all isdigit ds" "length ds \<le> 3"
  from decimal_foldl_bound [OF a(1), of 0] have "decimal ds < 10 ^ length ds"
    by (simp add: decimal_def)
  also have "(10::int) ^ length ds \<le> 10 ^ 3" using a(2) by (intro power_increasing) simp_all
  finally show ?thesis by simp
qed

lemma takeWhile_digits:
  "list_all isdigit ds \<Longrightarrow> rest = [] \<or> \<not> isdigit (hd rest) \<Longrightarrow>
   takeWhile isdigit (ds @ rest) = ds"
  by (cases rest) (auto simp: list_all_iff takeWhile_append)

lemma takeWhile_digits_take:
  "list_all isdigit ds \<Longrightarrow> rest = [] \<or> \<not> isdigit (hd rest) \<Longrightarrow>
   takeWhile isdigit (take n (ds @ rest)) = take n ds"
proof (cases "n \<le> length ds")
  case True
  assume a: "list_all isdigit ds"
  then have "list_all isdigit (take n ds)" by (auto simp: list_all_iff dest: in_set_takeD)
  with True show ?thesis by (simp add: list_all_iff)
next
  case False
  assume a: "list_all isdigit ds" "rest = [] \<or> \<not> isdigit (hd rest)"
  from False have "take n (ds @ rest) = ds @ take (n - length ds) rest" by simp
  moreover from a(2) False have "take (n - length ds) rest = [] \<or> \<not> isdigit (hd (take (n - length ds) rest))"
    by (cases rest) auto
  ultimately show ?thesis using takeWhile_digits [OF a(1)] False by simp
qed

lemma scan_d_digits:
  assumes "ds \<noteq> []" "list_all isdigit ds" "rest = [] \<or> \<not> isdigit (hd rest)"
  shows "scan_d None (ds @ rest) = Some (decimal ds)"
    and "scan_d None (CHR ''-'' # ds @ rest) = Some (- decimal ds)"
    and "scan_d (Some w) (ds @ rest) = (if w = 0 then None else Some (decimal (take w ds)))"
proof -
  from assms obtain d ds' where ds: "ds = d # ds'" by (cases ds) auto
  with assms(2) have d: "isdigit d" by simp
  note nd = isdigit_not_space [OF d]
  show "scan_d None (ds @ rest) = Some (decimal ds)"
    using nd assms takeWhile_digits [OF assms(2,3)] by (simp add: scan_d_def ds)
  have "\<not> isspace (CHR ''-'')" by (simp add: isspace_def)
  then show "scan_d None (CHR ''-'' # ds @ rest) = Some (- decimal ds)"
    using assms takeWhile_digits [OF assms(2,3)] by (simp add: scan_d_def)
  show "scan_d (Some w) (ds @ rest) = (if w = 0 then None else Some (decimal (take w ds)))"
    using nd takeWhile_digits_take [OF assms(2,3), of w] by (simp add: scan_d_def ds)
qed

lemma scan_d_letter: "\<not> isspace c \<Longrightarrow> \<not> isdigit c \<Longrightarrow> c \<noteq> CHR ''-'' \<Longrightarrow> c \<noteq> CHR ''+'' \<Longrightarrow>
   scan_d None (c # cs) = None"
  by (simp add: scan_d_def)

text \<open>C10, amended. When the name begins with a decimal integer that an \<^verbatim>\<open>int\<close>
  holds, with or without a minus sign, \<^verbatim>\<open>parse_color\<close> returns that integer,
  whatever follows the digits (\<^verbatim>\<open>12abc\<close> gives 12). The result for an unsigned
  integer is never \<open>-2\<close>; for a signed one it is \<open>-2\<close> exactly when the integer is
  \<open>-2\<close>. After \<^verbatim>\<open>color\<close> at most three digits are read (\<^verbatim>\<open>color1234\<close> gives
  123).\<close>

theorem parse_color_leading_integer:
  assumes "ds \<noteq> []" "list_all isdigit ds" "rest = [] \<or> \<not> isdigit (hd rest)"
    and "decimal ds \<le> 2147483647"
  shows "parse_color (ds @ rest) = Inr (decimal ds)
       \<and> parse_color (ds @ rest) \<noteq> Inr (- 2)
       \<and> parse_color (''-'' @ ds @ rest) = Inr (- decimal ds)
       \<and> (parse_color (''-'' @ ds @ rest) = Inr (- 2) \<longleftrightarrow> decimal ds = 2)
       \<and> parse_color (''color'' @ ds @ rest) = Inr (decimal (take 3 ds))
       \<and> parse_color ''12abc'' = Inr 12
       \<and> parse_color ''color1234'' = Inr 123"
proof -
  have nn: "0 \<le> decimal ds" using assms(2) by (rule decimal_nonneg)
  have 1: "parse_color (ds @ rest) = Inr (decimal ds)"
    using scan_d_digits(1) [OF assms(1-3)] nn assms(4) by (simp add: parse_color_def store_int_def)
  have 2: "parse_color (''-'' @ ds @ rest) = Inr (- decimal ds)"
    using scan_d_digits(2) [OF assms(1-3)] nn assms(4) by (simp add: parse_color_def store_int_def)
  have t3: "list_all isdigit (take 3 ds)" using assms(2) by (auto simp: list_all_iff dest: in_set_takeD)
  have "decimal (take 3 ds) < 1000" using t3 by (rule decimal_short) simp
  moreover have "0 \<le> decimal (take 3 ds)" using t3 by (rule decimal_nonneg)
  moreover have "scan_d None (''color'' @ ds @ rest) = None"
    by (simp add: scan_d_letter isspace_def isdigit_def)
  moreover have "take 3 ds \<noteq> []" using assms(1) by (cases ds) auto
  ultimately have 3: "parse_color (''color'' @ ds @ rest) = Inr (decimal (take 3 ds))"
    using scan_d_digits(3) [OF assms(1-3), of 3] by (simp add: parse_color_def store_int_def)
  have 4: "parse_color ''12abc'' = Inr 12"
    by (simp add: parse_color_def scan_d_def store_int_def isspace_def isdigit_def decimal_def
        digit_value_def)
  have 5: "parse_color ''color1234'' = Inr 123"
    by (simp add: parse_color_def scan_d_def store_int_def isspace_def isdigit_def decimal_def
        digit_value_def)
  from 1 2 3 4 5 nn show ?thesis by simp
qed

text \<open>C10 as stated fails: \<^verbatim>\<open>-2\<close> begins with a decimal integer, and the value
  returned for it is the one that also reports an unrecognised name; and the digits of
  \<^verbatim>\<open>4294967294\<close> denote a number no \<^verbatim>\<open>int\<close> holds, so that number is not
  returned.\<close>

theorem parse_color_minus_two_sentinel:
  "parse_color ''-2'' = Inr (- 2) \<and> parse_color ''reddish'' = Inr (- 2)
   \<and> parse_color ''4294967294'' = Inl IntOverflow"
  by (simp add: parse_color_def scan_d_def store_int_def isspace_def isdigit_def decimal_def
        digit_value_def colors_map_def str_eq_def)

section \<open>Instances\<close>

theorem eval_rules_selected_clause_witness:
  "eval_rules literal_match (Some ''~S'') example_task True
   \<and> \<not> eval_rules literal_match (Some ''~S'') example_task False
   \<and> eval_rules literal_match (Some ''~S ~S'') example_task True"
  using eval_rules_selected_clause [of literal_match example_task True "'' ~S''"]
    eval_rules_selected_clause [of literal_match example_task False "'' ~S''"]
  by (simp add: str_starts_with_def)

theorem get_colors_task_cascade_witness:
  "get_colors literal_match full_pool OBJECT_TASK example_task True = COLOR_PAIR 2
   \<and> get_colors_evaluated literal_match full_pool OBJECT_TASK example_task True = [Some ''~S'']
   \<and> get_colors literal_match
        (full_pool\<lparr>color_rules := [\<lparr>rule_pair = 5, rule_text = None, rule_object = OBJECT_TASK\<rparr>,
                            \<lparr>rule_pair = 6, rule_text = Some ''~S'', rule_object = OBJECT_TASK\<rparr>]\<rparr>)
        OBJECT_TASK example_task False = COLOR_PAIR 5"
  using get_colors_task_cascade [of literal_match full_pool example_task True 5 6]
  by (simp add: full_pool_def str_starts_with_def)

theorem get_colors_header_error_first_witness:
  "get_colors literal_match full_pool OBJECT_HEADER example_task True = COLOR_PAIR 1
   \<and> get_colors_evaluated literal_match full_pool OBJECT_HEADER example_task True = []
   \<and> get_colors literal_match full_pool OBJECT_ERROR example_task True = COLOR_PAIR 0"
  using get_colors_header_error_first [of literal_match full_pool example_task True]
  by (simp add: full_pool_def)

theorem no_colors_default_pair_witness:
  "start_color_ok mono_terminal \<and> use_default_colors_ok mono_terminal
   \<and> \<not> has_colors mono_terminal
   \<and> init_colors mono_terminal (initial_colors (\<lambda>a. False)) =
       Inr ((initial_colors (\<lambda>a. False))\<lparr>use_colors := False, colors_initialized := True\<rparr>, 3)
   \<and> get_colors literal_match
        ((initial_colors (\<lambda>a. False))\<lparr>use_colors := False, colors_initialized := True\<rparr>)
        OBJECT_TASK example_task True = 0
   \<and> add_color_rule mono_terminal
        ((initial_colors (\<lambda>a. False))\<lparr>use_colors := False, colors_initialized := True\<rparr>)
        OBJECT_TASK (Some ''~S'') 1 0 = Inl NullPointer
   \<and> \<not> list_ex (rule_matches literal_match OBJECT_TASK example_task False) (color_rules full_pool)
   \<and> get_colors literal_match full_pool OBJECT_TASK example_task False = 0"
proof -
  have t: "start_color_ok mono_terminal" "use_default_colors_ok mono_terminal"
    "\<not> has_colors mono_terminal"
    by (simp_all add: mono_terminal_def)
  have n: "\<not> list_ex (rule_matches literal_match OBJECT_TASK example_task False)
      (color_rules full_pool)"
    by (simp add: full_pool_def rule_matches_def str_starts_with_def)
  from no_colors_default_pair [of mono_terminal "initial_colors (\<lambda>a. False)" literal_match
      OBJECT_TASK example_task True OBJECT_TASK "Some ''~S''" 1 0 "\<lambda>a. False"]
    no_colors_default_pair [of mono_terminal full_pool literal_match
      OBJECT_TASK example_task False OBJECT_TASK "Some ''~S''" 1 0 "\<lambda>a. False"]
    t n
  show ?thesis by simp
qed


theorem pool_exhausted_unchanged_witness:
  "pool_ready small_terminal full_pool
   \<and> find_add_pair small_terminal full_pool 1 (- 1) = Inr (full_pool, - 1)
   \<and> add_color_rule small_terminal full_pool OBJECT_ERROR None 1 (- 1) = Inr (full_pool, - 1)"
proof -
  have ready: "pool_ready small_terminal full_pool"
    by (simp add: pool_ready_def full_pool_def small_terminal_def)
  have full: "\<forall>p \<in> {0..<COLOR_PAIRS small_terminal}. slot_used full_pool p"
    by (simp add: slot_used_def read_used_def small_range full_pool_def small_terminal_def)
  have fresh: "\<forall>p \<in> {1..<COLOR_PAIRS small_terminal}. pair_content full_pool p \<noteq> Some (1, - 1)"
    by (simp add: pair_content_def small_range full_pool_def small_terminal_def)
  from pool_exhausted_unchanged [OF ready full fresh, of OBJECT_ERROR None] ready
  show ?thesis by simp
qed

theorem add_color_rule_overwrites_in_place_witness:
  "pool_ready small_terminal full_pool
   \<and> \<lparr>rule_pair = 2, rule_text = Some ''~S'', rule_object = OBJECT_TASK\<rparr> \<in> set (color_rules full_pool)
   \<and> (\<exists>s' ret i. add_color_rule small_terminal full_pool OBJECT_TASK (Some ''~S'') 4 0 = Inr (s', ret)
           \<and> i < length (color_rules full_pool)
           \<and> rule_object (color_rules full_pool ! i) = OBJECT_TASK
           \<and> rule_text (color_rules full_pool ! i) = Some ''~S''
           \<and> color_rules s' =
               (color_rules full_pool)[i := (color_rules full_pool ! i)\<lparr>rule_pair := rule_pair (color_rules s' ! i)\<rparr>]
           \<and> length (color_rules s') = length (color_rules full_pool)
           \<and> map rule_text (color_rules s') = map rule_text (color_rules full_pool)
           \<and> map rule_object (color_rules s') = map rule_object (color_rules full_pool))"
proof -
  have ready: "pool_ready small_terminal full_pool"
    by (simp add: pool_ready_def full_pool_def small_terminal_def)
  have stored: "\<lparr>rule_pair = 2, rule_text = Some ''~S'', rule_object = OBJECT_TASK\<rparr>
      \<in> set (color_rules full_pool)"
    by (simp add: full_pool_def)
  from add_color_rule_overwrites_in_place [OF ready stored, of OBJECT_TASK "Some ''~S''" 4 0]
    ready stored show ?thesis by simp
qed

theorem parse_color_leading_integer_witness:
  "''42'' \<noteq> [] \<and> list_all isdigit ''42'' \<and> \<not> isdigit (hd ''px'') \<and> decimal ''42'' \<le> 2147483647
   \<and> parse_color ''42px'' = Inr 42 \<and> parse_color ''-42px'' = Inr (- 42)
   \<and> parse_color ''color42px'' = Inr 42"
proof -
  have a: "''42'' \<noteq> []" "list_all isdigit ''42''" "''px'' = [] \<or> \<not> isdigit (hd ''px'')"
    "decimal ''42'' \<le> 2147483647" and v: "decimal ''42'' = 42"
    by (simp_all add: isdigit_def decimal_def digit_value_def)
  from parse_color_leading_integer [OF a] a v show ?thesis by simp
qed

end
